theory Spec2Isabelle
  imports Complex_Main "HOL-Library.Log_Nat"
begin

section \<open>Python numbers\<close>

text \<open>
  The program is Python: its integers are unbounded (\<^typ>\<open>int\<close>) and its floats are IEEE-754
  binary64 numbers. A float is represented by the real number it denotes. Infinities and
  NaN appear only where the program can reach them from a finite argument without raising,
  in the products and quotients of the legacy amplitude curve: there a float is a value of
  the type \<open>pyfloat\<close> below.

  \<^item> Where the program compares or prints the result of plain float arithmetic (the
    repeated products of the calibration sweeps, the kHz value of the frequency title), the
    arithmetic is modelled exactly: \<open>fl\<close> rounds the real result to the nearest binary64
    number, ties to even.
  \<^item> The slider and decibel curves go through the \<open>math\<close> module (\<open>log2\<close>, \<open>log10\<close>,
    \<open>log\<close>, \<open>exp\<close>, \<open>pow\<close>), whose last-digit rounding Python does not fix. They are
    modelled over the reals, by the functions that the library approximates, together with
    the exceptions that the library raises: \<open>ValueError\<close> outside the domain of a
    logarithm, \<open>OverflowError\<close> where the result exceeds the binary64 range.
\<close>

datatype error = ValueError | OverflowError | UnboundLocalError

definition py_round :: "real \<Rightarrow> int" where
  \<comment> \<open>\<open>round(x)\<close>: the nearest integer, a tie going to the even one.\<close>
  "py_round x =
     (let n = \<lfloor>x\<rfloor>; d = x - of_int n
      in if d < 1 / 2 then n else if 1 / 2 < d then n + 1 else if even n then n else n + 1)"

definition round_ndigits :: "real \<Rightarrow> nat \<Rightarrow> real" where
  \<comment> \<open>\<open>round(x, n)\<close>: the nearest multiple of \<open>10 ^ - n\<close>, decided on the exact value of \<open>x\<close>.\<close>
  "round_ndigits x n = of_int (py_round (x * 10 ^ n)) / 10 ^ n"

definition floor_log2 :: "real \<Rightarrow> int" where
  \<comment> \<open>The binary exponent of a positive number: \<open>2 ^ e \<le> x < 2 ^ (e + 1)\<close>.\<close>
  "floor_log2 x = (if 1 \<le> x then bitlen \<lfloor>x\<rfloor> - 1 else - bitlen (\<lceil>1 / x\<rceil> - 1))"

definition ldexp :: "real \<Rightarrow> int \<Rightarrow> real" where
  \<comment> \<open>\<open>x * 2 ** e\<close>\<close>
  "ldexp x e = (if 0 \<le> e then x * 2 ^ nat e else x / 2 ^ nat (- e))"

definition fl :: "real \<Rightarrow> real" where
  \<comment> \<open>Rounding to the nearest binary64 number (53 significant bits, ties to even), for
      magnitudes in the normal range.\<close>
  "fl x =
     (if x = 0 then 0
      else let e = floor_log2 \<bar>x\<bar> - 52 in ldexp (of_int (py_round (ldexp x (- e)))) e)"

definition fmul :: "real \<Rightarrow> real \<Rightarrow> real" where
  \<comment> \<open>The product of two floats.\<close>
  "fmul x y = fl (x * y)"

definition fdiv :: "real \<Rightarrow> real \<Rightarrow> real" where
  \<comment> \<open>The quotient of two floats (or the true division of two small integers), \<open>y \<noteq> 0\<close>.\<close>
  "fdiv x y = fl (x / y)"

definition int_to_float :: "int \<Rightarrow> error + real" where
  \<comment> \<open>The conversion of an integer operand of a float operation. It rounds, and an integer
      beyond the binary64 range raises.\<close>
  "int_to_float i = (let x = fl (of_int i) in if 2 ^ 1024 \<le> \<bar>x\<bar> then Inl OverflowError else Inr x)"

subsection \<open>Floats with infinities\<close>






subsection \<open>The \<open>math\<close> module\<close>

definition math_log2 :: "real \<Rightarrow> error + real" where
  "math_log2 x = (if x \<le> 0 then Inl ValueError else Inr (log 2 x))"

definition math_log10 :: "real \<Rightarrow> error + real" where
  "math_log10 x = (if x \<le> 0 then Inl ValueError else Inr (log 10 x))"



definition math_pow :: "real \<Rightarrow> real \<Rightarrow> error + real" where
  \<comment> \<open>\<open>math.pow\<close>: a zero base with a negative exponent and a negative base with a
      fractional exponent are domain errors; a result beyond the binary64 range raises. The
      program only calls it with base 2.\<close>
  "math_pow x y =
     (if x = 0 then (if y < 0 then Inl ValueError else if y = 0 then Inr 1 else Inr 0)
      else if x < 0 \<and> y \<noteq> of_int \<lfloor>y\<rfloor> then Inl ValueError
      else let r = (if x < 0 \<and> odd \<lfloor>y\<rfloor> then - (\<bar>x\<bar> powr y) else \<bar>x\<bar> powr y)
           in if 2 ^ 1024 \<le> \<bar>r\<bar> then Inl OverflowError else Inr r)"

subsection \<open>Strings\<close>

text \<open>
  A Python string is modelled by its UTF-8 bytes: the titles are ASCII except for the
  infinity sign, which is the three bytes \<open>E2 88 9E\<close>.
\<close>

definition digit_char :: "nat \<Rightarrow> char" where
  "digit_char n = ''0123456789'' ! n"

fun show_nat :: "nat \<Rightarrow> string" where
  "show_nat n = (if n < 10 then [digit_char n] else show_nat (n div 10) @ [digit_char (n mod 10)])"

declare show_nat.simps [simp del]

definition str_int :: "int \<Rightarrow> string" where
  \<comment> \<open>An integer in an f-string: its decimal digits.\<close>
  "str_int i = (if i < 0 then ''-'' @ show_nat (nat (- i)) else show_nat (nat i))"

definition float_repr :: "real \<Rightarrow> string" where
  \<comment> \<open>A float in an f-string, for a float that \<open>round(x, 1)\<close> returned: the shortest
      decimal that reads back as the float, which is the rounded decimal itself, with one
      digit after the point (below \<open>1e16\<close>, where Python switches to exponent notation).
      The sign of a zero is not represented: the only zero that the program prints is
      replaced by a literal before it is formatted.\<close>
  "float_repr v =
     (let k = py_round (v * 10)
      in (if k < 0 then ''-'' else '''') @ show_nat (nat \<bar>k\<bar> div 10) @ ''.'' @
         [digit_char (nat \<bar>k\<bar> mod 10)])"

definition minus_infinity :: string where
  \<comment> \<open>The sentinel \<open>"-\<infinity>"\<close>.\<close>
  "minus_infinity = [CHR ''-'', CHR 0xE2, CHR 0x88, CHR 0x9E]"

text \<open>The variable \<open>dBFS\<close> of \<open>amp_title_format\<close> holds a float or a string.\<close>

datatype py_value = Float real | Str string

definition format_value :: "py_value \<Rightarrow> string" where
  "format_value v = (case v of Float x \<Rightarrow> float_repr x | Str t \<Rightarrow> t)"

section \<open>Parameter mapping\<close>

text \<open>
  The helper functions of \<open>bar_osc.py\<close>. The decorator \<open>deprecated\<close> of \<open>slider_to_amp\<close>
  and \<open>amp_to_slider\<close> emits a \<open>DeprecationWarning\<close> and then calls the function; the
  warning is not part of the model.
\<close>

definition slider_to_freq :: "real \<Rightarrow> error + int" where
  "slider_to_freq value =
     (case math_pow 2 (value * (1 / 10000)) of Inl e \<Rightarrow> Inl e | Inr p \<Rightarrow> Inr (py_round p))"

definition freq_to_slider :: "real \<Rightarrow> error + real" where
  "freq_to_slider freq =
     (case math_log2 freq of Inl e \<Rightarrow> Inl e | Inr l \<Rightarrow> Inr (l * 10000))"

definition freq_title_format :: "int \<Rightarrow> error + string" where
  \<comment> \<open>Both callers pass an integer: the initial frequency 440 and a result of
      \<open>slider_to_freq\<close>. The chain \<open>if\<close>/\<open>elif\<close> has no \<open>else\<close>; for an integer one of
      its tests holds.\<close>
  "freq_title_format freq =
     (if freq < 10000 then Inr (''Frequency: '' @ str_int freq @ '' Hz'')
      else if freq \<ge> 10000 then
        (case int_to_float freq of
           Inl e \<Rightarrow> Inl e
         | Inr x \<Rightarrow>
             (let freq' = round_ndigits (fmul x (fl (1 / 1000))) 1
              in Inr (''Frequency: '' @ float_repr freq' @ '' kHz'')))
      else Inl UnboundLocalError)"



definition amp_title_format :: "real \<Rightarrow> error + string" where
  \<comment> \<open>The \<open>try\<close> block catches \<open>ValueError\<close> only; the test \<open>dBFS == 0.0\<close> is false for
      the sentinel string.\<close>
  "amp_title_format amp =
     (case (case math_log10 amp of
              Inr l \<Rightarrow> Inr (Float (round_ndigits (20 * l) 1))
            | Inl ValueError \<Rightarrow> Inr (Str minus_infinity)
            | Inl e \<Rightarrow> Inl e) of
        Inl e \<Rightarrow> Inl e
      | Inr dBFS \<Rightarrow>
          Inr (''Volume: '' @ format_value (if dBFS = Float 0 then Str ''-0.0'' else dBFS) @
               '' dBFS''))"

section \<open>The oscillator and the menu bar application\<close>

text \<open>
  The class \<open>Oscillator\<close> comes from the module \<open>oscillator\<close>, which is not among the
  sources. Its attributes are the ones that \<open>bar_osc.py\<close> reads and writes; \<open>stream\<close> is
  \<open>None\<close> while the oscillator is idle and holds the stream handle, bound to a sample rate
  and a wave type, while it is streaming. A frequency or an amplitude is a Python number,
  represented by its value.
\<close>

datatype stream_handle = Stream_handle int string

record oscillator =
  samplerate :: int
  wave_type :: string
  amplitude :: real
  frequency :: real
  stream :: "stream_handle option"

datatype callback = Start_osc | Stop_osc

text \<open>
  What the program does to the outside world: it prints a frequency, a tone of a wave type,
  frequency and amplitude starts to sound, the program sleeps for some seconds, the tone
  stops.
\<close>

datatype event = Print real | Play string real real | Sleep nat | Stop

text \<open>
  The application object: its oscillator, the callbacks of the two buttons that
  \<open>osc_ready_menu\<close> and \<open>osc_busy_menu\<close> switch, and the trace of the events so far.
\<close>

record bar_osc_app =
  osc :: oscillator
  start_button :: "callback option"
  stop_button :: "callback option"
  trace :: "event list"

definition osc_play :: "bar_osc_app \<Rightarrow> bar_osc_app" where
  \<comment> \<open>Modelled from the spec: \<open>Oscillator.play\<close> (the module \<open>oscillator\<close> is not among the
      sources). From Idle it allocates a stream handle bound to the current sample rate and
      wave type and the tone sounds at the live frequency and amplitude; while Streaming it
      is a no-op.\<close>
  "osc_play s =
     (case stream (osc s) of
        None \<Rightarrow>
          s\<lparr>osc := (osc s)\<lparr>stream := Some (Stream_handle (samplerate (osc s)) (wave_type (osc s)))\<rparr>,
            trace := trace s @ [Play (wave_type (osc s)) (frequency (osc s)) (amplitude (osc s))]\<rparr>
      | Some h \<Rightarrow> s)"

definition osc_stop :: "bar_osc_app \<Rightarrow> bar_osc_app" where
  \<comment> \<open>Modelled from the spec: \<open>Oscillator.stop\<close> (the module \<open>oscillator\<close> is not among the
      sources). While Streaming it releases the stream handle; from Idle it is a no-op.\<close>
  "osc_stop s =
     (case stream (osc s) of
        None \<Rightarrow> s
      | Some h \<Rightarrow> s\<lparr>osc := (osc s)\<lparr>stream := None\<rparr>, trace := trace s @ [Stop]\<rparr>)"

definition print_hz :: "bar_osc_app \<Rightarrow> bar_osc_app" where
  \<comment> \<open>\<open>print(self.osc.frequency, 'Hz')\<close>\<close>
  "print_hz s = s\<lparr>trace := trace s @ [Print (frequency (osc s))]\<rparr>"

definition time_sleep :: "nat \<Rightarrow> bar_osc_app \<Rightarrow> bar_osc_app" where
  "time_sleep n s = s\<lparr>trace := trace s @ [Sleep n]\<rparr>"

definition osc_ready_menu :: "bar_osc_app \<Rightarrow> bar_osc_app" where
  "osc_ready_menu s = s\<lparr>start_button := Some Start_osc, stop_button := None\<rparr>"

definition osc_busy_menu :: "bar_osc_app \<Rightarrow> bar_osc_app" where
  "osc_busy_menu s = s\<lparr>start_button := None, stop_button := Some Stop_osc\<rparr>"

definition start_osc :: "bar_osc_app \<Rightarrow> bar_osc_app" where
  "start_osc s = osc_play (osc_busy_menu s)"

definition stop_osc :: "bar_osc_app \<Rightarrow> bar_osc_app" where
  "stop_osc s = osc_stop (osc_ready_menu s)"

definition initial_app :: bar_osc_app where
  \<comment> \<open>The application after \<open>__init__\<close>: the initial oscillator settings, the menu of an
      idle oscillator, and (modelled from the spec) a new oscillator that is not streaming.\<close>
  "initial_app =
     \<lparr>osc = \<lparr>samplerate = 44100, wave_type = ''sine_wave'', amplitude = 1 / 2, frequency = 440,
              stream = None\<rparr>,
      start_button = Some Start_osc, stop_button = None, trace = []\<rparr>"

subsection \<open>The calibration sweeps\<close>

text \<open>
  The two callbacks ignore their argument \<open>sender\<close>. Each of them runs a \<open>while\<close> loop on
  the frequency of the oscillator; the loop is a partial function, so that a sweep that
  returns is a sweep whose loop ends.
\<close>

definition third_octave :: real where
  \<comment> \<open>The value of the expression \<open>2**(1/3)\<close>. The quotient \<open>1/3\<close> is a float; the power
      comes from the C library and is taken to be correctly rounded, which gives the float
      that Python prints as 1.2599210498948732.\<close>
  "third_octave = fl (2 powr fdiv 1 3)"

definition octave_walk_body :: "bar_osc_app \<Rightarrow> bar_osc_app" where
  \<comment> \<open>One turn of the loop of \<open>octave_walk\<close>.\<close>
  "octave_walk_body s =
     (let s1 = print_hz s;
          s2 = osc_play s1;
          s3 = time_sleep 1 s2;
          s4 = osc_stop s3
      in s4\<lparr>osc := (osc s4)\<lparr>frequency := fmul (frequency (osc s4)) 2\<rparr>\<rparr>)"

partial_function (option) octave_walk_loop :: "bar_osc_app \<Rightarrow> bar_osc_app option" where
  "octave_walk_loop s =
     (if frequency (osc s) \<le> 1760 then octave_walk_loop (octave_walk_body s) else Some s)"

definition octave_walk :: "bar_osc_app \<Rightarrow> bar_osc_app option" where
  "octave_walk s =
     (let s1 = (if stream (osc s) \<noteq> None then stop_osc s else s);
          retain_wave = wave_type (osc s1);
          retain_freq = frequency (osc s1);
          s2 = s1\<lparr>osc := (osc s1)\<lparr>wave_type := ''sine_wave''\<rparr>\<rparr>;
          s3 = s2\<lparr>osc := (osc s2)\<lparr>frequency := 55 / 2\<rparr>\<rparr>
      in case octave_walk_loop s3 of
           None \<Rightarrow> None
         | Some s4 \<Rightarrow>
             (let s5 = s4\<lparr>osc := (osc s4)\<lparr>wave_type := retain_wave\<rparr>\<rparr>
              in Some (s5\<lparr>osc := (osc s5)\<lparr>frequency := retain_freq\<rparr>\<rparr>)))"

definition octave_walk_thirds_body :: "bar_osc_app \<Rightarrow> bar_osc_app" where
  \<comment> \<open>One turn of the loop of \<open>octave_walk_thirds\<close>.\<close>
  "octave_walk_thirds_body s =
     (let s1 = print_hz s;
          s2 = osc_play s1;
          s3 = time_sleep 1 s2;
          s4 = osc_stop s3
      in s4\<lparr>osc := (osc s4)\<lparr>frequency := fmul (frequency (osc s4)) third_octave\<rparr>\<rparr>)"

partial_function (option) octave_walk_thirds_loop :: "bar_osc_app \<Rightarrow> bar_osc_app option" where
  "octave_walk_thirds_loop s =
     (if frequency (osc s) \<le> 1760 then octave_walk_thirds_loop (octave_walk_thirds_body s)
      else Some s)"

definition octave_walk_thirds :: "bar_osc_app \<Rightarrow> bar_osc_app option" where
  "octave_walk_thirds s =
     (let s1 = (if stream (osc s) \<noteq> None then stop_osc s else s);
          retain_wave = wave_type (osc s1);
          retain_freq = frequency (osc s1);
          s2 = s1\<lparr>osc := (osc s1)\<lparr>wave_type := ''sine_wave''\<rparr>\<rparr>;
          s3 = s2\<lparr>osc := (osc s2)\<lparr>frequency := 55 / 2\<rparr>\<rparr>
      in case octave_walk_thirds_loop s3 of
           None \<Rightarrow> None
         | Some s4 \<Rightarrow>
             (let s5 = s4\<lparr>osc := (osc s4)\<lparr>wave_type := retain_wave\<rparr>\<rparr>
              in Some (s5\<lparr>osc := (osc s5)\<lparr>frequency := retain_freq\<rparr>\<rparr>)))"

subsection \<open>Describing a sweep\<close>

definition step_events :: "real \<Rightarrow> real \<Rightarrow> event list" where
  \<comment> \<open>What one step of a sweep does to the outside world: a sine tone of frequency \<open>f\<close> and
      amplitude \<open>a\<close> held for one second.\<close>
  "step_events a f = [Print f, Play ''sine_wave'' f a, Sleep 1, Stop]"

definition sweep_frequencies :: "(real \<Rightarrow> real) \<Rightarrow> nat \<Rightarrow> real list" where
  \<comment> \<open>The first \<open>n\<close> frequencies of a sweep that starts at 27.5 Hz and moves on by \<open>nxt\<close>.\<close>
  "sweep_frequencies nxt n = map (\<lambda>k. (nxt ^^ k) (55 / 2)) [0..<n]"

definition after_steps :: "(real \<Rightarrow> real) \<Rightarrow> nat \<Rightarrow> bar_osc_app \<Rightarrow> bar_osc_app" where
  \<comment> \<open>The application after \<open>n\<close> turns of a sweep loop entered with an idle oscillator.\<close>
  "after_steps nxt n s =
     s\<lparr>osc := (osc s)\<lparr>frequency := (nxt ^^ n) (frequency (osc s))\<rparr>,
       trace := trace s @
         concat (map (\<lambda>k. step_events (amplitude (osc s)) ((nxt ^^ k) (frequency (osc s)))) [0..<n])\<rparr>"

definition stop_first :: "bar_osc_app \<Rightarrow> event list" where
  \<comment> \<open>What a sweep does before its loop: a streaming oscillator is stopped.\<close>
  "stop_first s = (if stream (osc s) = None then [] else [Stop])"

section \<open>Facts about the float arithmetic\<close>

text \<open>Unfolding these equations evaluates float arithmetic on numerals.\<close>

lemmas float_eval = fmul_def fdiv_def fl_def floor_log2_def py_round_def Let_def compute_bitlen ldexp_def

lemma ldexp_powi: "ldexp x e = x * 2 powi e"
  by (simp add: ldexp_def power_int_def field_simps)

lemma py_round_error: "\<bar>of_int (py_round x) - x\<bar> \<le> 1 / 2"
  unfolding py_round_def Let_def by (auto simp: abs_le_iff; linarith)

lemma py_round_unique: "\<bar>x - of_int k\<bar> < 1 / 2 \<Longrightarrow> py_round x = k"
  using py_round_error [of x] by linarith

text \<open>The binary exponent, and the error of rounding to 53 bits.\<close>

lemma floor_log2_ge1:
  assumes "1 \<le> x"
  shows "2 powi (floor_log2 x) \<le> x \<and> x < 2 powi (floor_log2 x + 1)"
proof -
  define n where "n = \<lfloor>x\<rfloor>"
  have n: "0 < n" "of_int n \<le> x" "x < of_int n + 1"
    using assms unfolding n_def by linarith+
  have b: "1 \<le> bitlen n" using n(1) by (simp add: bitlen_alt_def)
  have e: "floor_log2 x = bitlen n - 1" using assms by (simp add: floor_log2_def n_def)
  from bitlen_bounds [OF n(1)]
  have lo: "2 ^ nat (bitlen n - 1) \<le> n" and hi: "n < 2 ^ nat (bitlen n)" by auto
  have p1: "(2::real) powi (bitlen n - 1) = 2 ^ nat (bitlen n - 1)"
    using b by (simp add: power_int_def)
  have lo': "(2::real) ^ nat (bitlen n - 1) \<le> of_int n"
    using lo by (metis of_int_le_iff of_int_numeral of_int_power)
  have p2: "(2::real) powi (bitlen n - 1 + 1) = 2 ^ nat (bitlen n)"
    using b by (simp add: power_int_def)
  have hi': "of_int n + 1 \<le> (2::real) ^ nat (bitlen n)"
  proof -
    have "n + 1 \<le> 2 ^ nat (bitlen n)" using hi by simp
    then have "of_int (n + 1) \<le> (of_int (2 ^ nat (bitlen n)) :: real)" by (rule of_int_le_iff [THEN iffD2])
    then show ?thesis by simp
  qed
  have "2 powi (floor_log2 x) \<le> x" unfolding e p1 using lo' n(2) by linarith
  moreover have "x < 2 powi (floor_log2 x + 1)" unfolding e p2 using hi' n(3) by linarith
  ultimately show ?thesis by simp
qed

lemma floor_log2_lt1:
  assumes "0 < x" "x < 1"
  shows "2 powi (floor_log2 x) \<le> x \<and> x < 2 powi (floor_log2 x + 1)"
proof -
  define m where "m = \<lceil>1 / x\<rceil> - 1"
  have y: "1 < 1 / x" using assms by simp
  have m: "0 < m" "of_int m < 1 / x" "1 / x \<le> of_int m + 1"
    using y unfolding m_def by linarith+
  have b: "1 \<le> bitlen m" using m(1) by (simp add: bitlen_alt_def)
  have e: "floor_log2 x = - bitlen m" using assms by (simp add: floor_log2_def m_def)
  from bitlen_bounds [OF m(1)]
  have lo: "2 ^ nat (bitlen m - 1) \<le> m" and hi: "m < 2 ^ nat (bitlen m)" by auto
  have lo': "(2::real) ^ nat (bitlen m - 1) \<le> of_int m"
    using lo by (metis of_int_le_iff of_int_numeral of_int_power)
  have hi': "of_int m + 1 \<le> (2::real) ^ nat (bitlen m)"
  proof -
    have "m + 1 \<le> 2 ^ nat (bitlen m)" using hi by simp
    then have "of_int (m + 1) \<le> (of_int (2 ^ nat (bitlen m)) :: real)" by (rule of_int_le_iff [THEN iffD2])
    then show ?thesis by simp
  qed
  have p1: "(2::real) powi (- bitlen m) = 1 / 2 ^ nat (bitlen m)"
    using b by (simp add: power_int_def field_simps)
  have p2: "(2::real) powi (- bitlen m + 1) = 1 / 2 ^ nat (bitlen m - 1)"
  proof -
    have "(2::real) powi (- bitlen m + 1) = inverse (2 powi (bitlen m - 1))"
      by (simp add: power_int_minus [symmetric])
    also have "(2::real) powi (bitlen m - 1) = 2 ^ nat (bitlen m - 1)"
      using b by (simp add: power_int_def)
    finally show ?thesis by (simp add: field_simps)
  qed
  have "1 / x \<le> 2 ^ nat (bitlen m)" using m(3) hi' by linarith
  then have a1: "1 / 2 ^ nat (bitlen m) \<le> x"
    using assms(1) by (simp add: field_simps)
  have "2 ^ nat (bitlen m - 1) < 1 / x" using m(2) lo' by linarith
  then have a2: "x < 1 / 2 ^ nat (bitlen m - 1)"
    using assms(1) by (simp add: field_simps)
  show ?thesis using a1 a2 e p1 p2 by simp
qed

lemma floor_log2_bounds:
  assumes "0 < x"
  shows "2 powi (floor_log2 x) \<le> x" and "x < 2 powi (floor_log2 x + 1)"
  using floor_log2_ge1 [of x] floor_log2_lt1 [of x] assms by (cases "1 \<le> x"; simp)+

lemma fl_error: "\<bar>fl x - x\<bar> \<le> \<bar>x\<bar> / 2 ^ 53"
proof (cases "x = 0")
  case True
  then show ?thesis by (simp add: fl_def)
next
  case False
  define e where "e = floor_log2 \<bar>x\<bar>"
  define u where "u = (2::real) powi (e - 52)"
  have u: "0 < u" by (simp add: u_def)
  have lo: "2 powi e \<le> \<bar>x\<bar>" using floor_log2_bounds(1) [of "\<bar>x\<bar>"] False by (simp add: e_def)
  have iu: "(2::real) powi (- (e - 52)) = 1 / u"
    unfolding u_def by (simp only: power_int_minus) (simp add: field_simps)
  have f: "fl x = of_int (py_round (x / u)) * u"
    using False by (simp add: fl_def Let_def ldexp_powi e_def [symmetric] iu u_def [symmetric] del: minus_diff_eq)
  have "\<bar>of_int (py_round (x / u)) - x / u\<bar> \<le> 1 / 2" by (rule py_round_error)
  then have "\<bar>of_int (py_round (x / u)) - x / u\<bar> * u \<le> 1 / 2 * u"
    using u by (intro mult_right_mono) simp_all
  moreover have "\<bar>of_int (py_round (x / u)) - x / u\<bar> * u = \<bar>fl x - x\<bar>"
  proof -
    have "\<bar>of_int (py_round (x / u)) - x / u\<bar> * u = \<bar>(of_int (py_round (x / u)) - x / u) * u\<bar>"
      using u by (simp add: abs_mult)
    also have "(of_int (py_round (x / u)) - x / u) * u = fl x - x"
      using u by (simp add: f field_simps)
    finally show ?thesis .
  qed
  moreover have "1 / 2 * u = 2 powi e / 2 ^ 53"
  proof -
    have "(2::real) powi (e - 52) = 2 powi e / 2 ^ 52"
      by (simp add: power_int_diff)
    then show ?thesis by (simp add: u_def)
  qed
  ultimately have "\<bar>fl x - x\<bar> \<le> 2 powi e / 2 ^ 53" by simp
  also have "\<dots> \<le> \<bar>x\<bar> / 2 ^ 53" using lo by (simp add: divide_right_mono)
  finally show ?thesis .
qed


lemma floor_log2_unique:
  assumes "0 < x" "2 powi e \<le> x" "x < 2 powi (e + 1)"
  shows "floor_log2 x = e"
proof (rule ccontr)
  assume ne: "floor_log2 x \<noteq> e"
  define e' where "e' = floor_log2 x"
  have b: "2 powi e' \<le> x" "x < 2 powi (e' + 1)"
    using floor_log2_bounds [OF assms(1)] by (simp_all add: e'_def)
  show False
  proof (cases "e' < e")
    case True
    then have "(2::real) powi (e' + 1) \<le> 2 powi e" by (intro power_int_increasing) simp_all
    then show False using b(2) assms(2) by linarith
  next
    case False
    then have "e < e'" using ne by (simp add: e'_def)
    then have "(2::real) powi (e + 1) \<le> 2 powi e'" by (intro power_int_increasing) simp_all
    then show False using b(1) assms(3) by linarith
  qed
qed

lemma fl_eqI:
  assumes "2 powi e \<le> \<bar>x\<bar>" "\<bar>x\<bar> < 2 powi (e + 1)"
    and "\<bar>x * 2 powi (52 - e) - of_int k\<bar> < 1 / 2"
  shows "fl x = of_int k * 2 powi (e - 52)"
proof -
  have "(0::real) < 2 powi e" by simp
  then have pos: "0 < \<bar>x\<bar>" using assms(1) by linarith
  then have nz: "x \<noteq> 0" by simp
  have e: "floor_log2 \<bar>x\<bar> = e" using pos assms(1,2) by (rule floor_log2_unique)
  have "ldexp x (- (e - 52)) = x * 2 powi (52 - e)" by (simp add: ldexp_powi)
  then have "py_round (ldexp x (- (e - 52))) = k"
    using assms(3) py_round_unique by simp
  then show ?thesis using nz by (simp add: fl_def Let_def e ldexp_powi del: minus_diff_eq)
qed

text \<open>
  The expression \<open>2**(1/3)\<close>: the real power lies within half a unit in the last place of
  the float \<open>0x1.428a2f98d728bp+0\<close>.
\<close>

lemma fdiv_1_3: "fdiv 1 3 = 6004799503160661 / 18014398509481984"
  by (simp add: float_eval)

lemma two_powr_small:
  fixes s :: real
  assumes "0 \<le> s" "s \<le> 1"
  shows "2 powr s \<le> 1 + s + s\<^sup>2"
proof -
  have "ln (2::real) \<le> 1" using ln_le_minus_one [of "2::real"] by simp
  then have "s * ln 2 \<le> s" using assms(1) by (simp add: mult_left_le)
  then have "2 powr s \<le> exp s" by (simp add: powr_def mult.commute)
  also have "\<dots> \<le> 1 + s + s\<^sup>2" using assms by (rule exp_bound)
  finally show ?thesis .
qed

lemma third_octave_value: "third_octave = 5674179970822795 / 4503599627370496"
proof -
  define t :: real where "t = 6004799503160661 / 18014398509481984"
  define s :: real where "s = 1 / 18014398509481984"
  define x :: real where "x = 2 powr t"
  define m :: real where "m = 5674179970822795 / 4503599627370496"
  define u :: real where "u = 1 / 9007199254740992"
  have x0: "0 < x" by (simp add: x_def)
  have cube: "x ^ 3 = 2 powr (3 * t)"
    unfolding x_def by (simp add: powr_powr mult.commute flip: powr_numeral)
  have t3: "3 * t = 1 - s" by (simp add: t_def s_def)
  have up: "x < m + u"
  proof (rule power_less_imp_less_base)
    have "x ^ 3 < 2 powr 1" unfolding cube t3 by (intro powr_less_mono) (simp_all add: s_def)
    also have "(2::real) powr 1 < (m + u) ^ 3" by (simp add: m_def u_def power3_eq_cube)
    finally show "x ^ 3 < (m + u) ^ 3" .
    show "0 \<le> m + u" by (simp add: m_def u_def)
  qed
  have lo: "m - u < x"
  proof (rule power_less_imp_less_base)
    have "2 powr s \<le> 1 + s + s\<^sup>2" by (rule two_powr_small) (simp_all add: s_def)
    moreover have "x ^ 3 * 2 powr s = 2"
      unfolding cube t3 by (simp flip: powr_add)
    moreover have "0 < (2::real) powr s" by simp
    moreover have "x ^ 3 * 2 powr s \<le> x ^ 3 * (1 + s + s\<^sup>2)" if "2 powr s \<le> 1 + s + s\<^sup>2"
      using that x0 by (intro mult_left_mono) simp_all
    ultimately have "2 \<le> x ^ 3 * (1 + s + s\<^sup>2)" by simp
    moreover have "(m - u) ^ 3 * (1 + s + s\<^sup>2) < 2"
      by (simp add: m_def u_def s_def power3_eq_cube power2_eq_square)
    ultimately have "(m - u) ^ 3 * (1 + s + s\<^sup>2) < x ^ 3 * (1 + s + s\<^sup>2)" by linarith
    moreover have "0 < 1 + s + s\<^sup>2" by (simp add: s_def power2_eq_square)
    ultimately show "(m - u) ^ 3 < x ^ 3"
      by (simp only: mult_less_cancel_right_pos)
    show "0 \<le> x" using x0 by simp
  qed
  have "fl x = of_int 5674179970822795 * 2 powi (0 - 52)"
  proof (rule fl_eqI)
    have "1 < x" using lo by (simp add: m_def u_def)
    then show "2 powi 0 \<le> \<bar>x\<bar>" by simp
    have "x < 2" using up by (simp add: m_def u_def)
    then show "\<bar>x\<bar> < 2 powi (0 + 1)" using x0 by simp
    have "\<bar>x * 4503599627370496 - 5674179970822795\<bar> < 1 / 2"
      using lo up unfolding m_def u_def by linarith
    then show "\<bar>x * 2 powi (52 - 0) - of_int 5674179970822795\<bar> < 1 / 2" by simp
  qed
  then show ?thesis
    by (simp add: third_octave_def fdiv_1_3 x_def t_def power_int_minus field_simps)
qed

section \<open>The calibration sweeps run to their end\<close>

text \<open>
  With an idle oscillator that is set to the sine wave, one turn of either loop adds one
  step to the trace and moves the frequency on. A loop whose first \<open>n\<close> frequencies are at
  most 1760 Hz and whose next frequency is above 1760 Hz therefore returns after exactly
  \<open>n\<close> turns.
\<close>

lemma octave_walk_body_idle:
  assumes "stream (osc s) = None" "wave_type (osc s) = ''sine_wave''"
  shows "octave_walk_body s = after_steps (\<lambda>f. fmul f 2) (Suc 0) s"
  using assms
  by (simp add: octave_walk_body_def print_hz_def osc_play_def time_sleep_def osc_stop_def
      after_steps_def step_events_def Let_def)

lemma octave_walk_thirds_body_idle:
  assumes "stream (osc s) = None" "wave_type (osc s) = ''sine_wave''"
  shows "octave_walk_thirds_body s = after_steps (\<lambda>f. fmul f third_octave) (Suc 0) s"
  using assms
  by (simp add: octave_walk_thirds_body_def print_hz_def osc_play_def time_sleep_def osc_stop_def
      after_steps_def step_events_def Let_def)

lemma after_steps_fields [simp]:
  "stream (osc (after_steps nxt n s)) = stream (osc s)"
  "wave_type (osc (after_steps nxt n s)) = wave_type (osc s)"
  "amplitude (osc (after_steps nxt n s)) = amplitude (osc s)"
  "frequency (osc (after_steps nxt n s)) = (nxt ^^ n) (frequency (osc s))"
  by (simp_all add: after_steps_def)

lemma after_steps_Suc:
  "after_steps nxt n (after_steps nxt (Suc 0) s) = after_steps nxt (Suc n) s"
proof -
  have "[0..<Suc n] = 0 # map Suc [0..<n]"
    by (simp add: upt_conv_Cons map_Suc_upt del: upt_Suc)
  then have "concat (map (\<lambda>k. step_events (amplitude (osc s)) ((nxt ^^ k) (frequency (osc s)))) [0..<Suc n])
      = step_events (amplitude (osc s)) (frequency (osc s)) @
        concat (map (\<lambda>k. step_events (amplitude (osc s)) ((nxt ^^ k) (nxt (frequency (osc s))))) [0..<n])"
    by (simp add: comp_def funpow_swap1 del: upt_Suc)
  moreover have "[0..<Suc 0] = [0]" by simp
  ultimately show ?thesis
    by (simp add: after_steps_def funpow_swap1 del: upt_Suc)
qed

lemma sweep_loop_run:
  fixes loop :: "bar_osc_app \<Rightarrow> bar_osc_app option"
  assumes unfold: "\<And>s. loop s = (if frequency (osc s) \<le> 1760 then loop (body s) else Some s)"
    and body: "\<And>s. stream (osc s) = None \<Longrightarrow> wave_type (osc s) = ''sine_wave'' \<Longrightarrow>
                 body s = after_steps nxt (Suc 0) s"
    and idle: "stream (osc s) = None" "wave_type (osc s) = ''sine_wave''"
    and below: "\<forall>k<n. (nxt ^^ k) (frequency (osc s)) \<le> 1760"
    and above: "\<not> (nxt ^^ n) (frequency (osc s)) \<le> 1760"
  shows "loop s = Some (after_steps nxt n s)"
  using idle below above
proof (induction n arbitrary: s)
  case 0
  then show ?case by (subst unfold) (simp add: after_steps_def)
next
  case (Suc n)
  let ?s = "after_steps nxt (Suc 0) s"
  have le: "frequency (osc s) \<le> 1760" using Suc.prems(3) by auto
  have "loop s = loop ?s"
    using le Suc.prems(1,2) by (subst unfold) (simp add: body)
  also have "\<dots> = Some (after_steps nxt n ?s)"
  proof (rule Suc.IH)
    show "\<forall>k<n. (nxt ^^ k) (frequency (osc ?s)) \<le> 1760"
    proof (intro allI impI)
      fix k assume "k < n"
      then have "(nxt ^^ Suc k) (frequency (osc s)) \<le> 1760"
        using Suc.prems(3) by (meson Suc_less_eq)
      then show "(nxt ^^ k) (frequency (osc ?s)) \<le> 1760"
        by (simp add: funpow_swap1)
    qed
    show "\<not> (nxt ^^ n) (frequency (osc ?s)) \<le> 1760"
      using Suc.prems(4) by (simp add: funpow_swap1)
  qed (simp_all add: Suc.prems)
  finally show ?case by (simp add: after_steps_Suc)
qed

text \<open>
  The frequencies of the two sweeps, computed in binary64 arithmetic. In the third-octave
  sweep every third product is a power of two times 27.5 again, so that the nineteenth
  frequency is 1760 Hz exactly, and the twentieth product ends the loop.
\<close>

lemma sweep_frequencies_all:
  "(\<forall>k<n. P ((nxt ^^ k) (55 / 2))) \<longleftrightarrow> (\<forall>x\<in>set (sweep_frequencies nxt n). P x)"
  by (auto simp: sweep_frequencies_def)

lemma after_steps_sweep:
  assumes "frequency (osc s) = 55 / 2"
  shows "after_steps nxt n s =
    s\<lparr>osc := (osc s)\<lparr>frequency := (nxt ^^ n) (55 / 2)\<rparr>,
      trace := trace s @ concat (map (step_events (amplitude (osc s))) (sweep_frequencies nxt n))\<rparr>"
  by (simp add: after_steps_def sweep_frequencies_def assms comp_def)

lemma octave_frequencies:
  "sweep_frequencies (\<lambda>f. fmul f 2) 7 = [55 / 2, 55, 110, 220, 440, 880, 1760]"
  by (simp add: sweep_frequencies_def eval_nat_numeral) (simp add: float_eval)

lemma octave_exit: "((\<lambda>f. fmul f 2) ^^ 7) (55 / 2) = 3520"
  by (simp add: eval_nat_numeral) (simp add: float_eval)

lemma octave_walk_sweep:
  assumes "stream (osc s) = None" "wave_type (osc s) = ''sine_wave''" "frequency (osc s) = 55 / 2"
  shows "octave_walk_loop s =
    Some (s\<lparr>osc := (osc s)\<lparr>frequency := 3520\<rparr>,
      trace := trace s @
        concat (map (step_events (amplitude (osc s))) [55 / 2, 55, 110, 220, 440, 880, 1760])\<rparr>)"
proof -
  have "octave_walk_loop s = Some (after_steps (\<lambda>f. fmul f 2) 7 s)"
  proof (rule sweep_loop_run [where body = octave_walk_body])
    show "\<forall>k<7. ((\<lambda>f. fmul f 2) ^^ k) (frequency (osc s)) \<le> 1760"
      using sweep_frequencies_all [of 7 "\<lambda>x. x \<le> 1760" "\<lambda>f. fmul f 2"]
      by (simp add: assms(3) octave_frequencies)
    show "\<not> ((\<lambda>f. fmul f 2) ^^ 7) (frequency (osc s)) \<le> 1760"
      unfolding assms(3) octave_exit by simp
  qed (simp_all add: assms octave_walk_body_idle octave_walk_loop.simps [symmetric])
  then show ?thesis
    by (simp only: after_steps_sweep [OF assms(3)] octave_frequencies octave_exit)
qed

lemma thirds_steps:
  "fmul (55 / 2) third_octave = 4876248412425839 / 140737488355328"
  "fmul (4876248412425839 / 140737488355328) third_octave = 1535922004832943 / 35184372088832"
  "fmul (1535922004832943 / 35184372088832) third_octave = 55"
  "fmul 55 third_octave = 4876248412425839 / 70368744177664"
  "fmul (4876248412425839 / 70368744177664) third_octave = 1535922004832943 / 17592186044416"
  "fmul (1535922004832943 / 17592186044416) third_octave = 110"
  "fmul 110 third_octave = 4876248412425839 / 35184372088832"
  "fmul (4876248412425839 / 35184372088832) third_octave = 1535922004832943 / 8796093022208"
  "fmul (1535922004832943 / 8796093022208) third_octave = 220"
  "fmul 220 third_octave = 4876248412425839 / 17592186044416"
  "fmul (4876248412425839 / 17592186044416) third_octave = 1535922004832943 / 4398046511104"
  "fmul (1535922004832943 / 4398046511104) third_octave = 440"
  "fmul 440 third_octave = 4876248412425839 / 8796093022208"
  "fmul (4876248412425839 / 8796093022208) third_octave = 1535922004832943 / 2199023255552"
  "fmul (1535922004832943 / 2199023255552) third_octave = 880"
  "fmul 880 third_octave = 4876248412425839 / 4398046511104"
  "fmul (4876248412425839 / 4398046511104) third_octave = 1535922004832943 / 1099511627776"
  "fmul (1535922004832943 / 1099511627776) third_octave = 1760"
  "fmul 1760 third_octave = 4876248412425839 / 2199023255552"
  by (simp_all add: third_octave_value float_eval)

lemma thirds_frequencies:
  "sweep_frequencies (\<lambda>f. fmul f third_octave) 19 =
    [55 / 2, 4876248412425839 / 140737488355328, 1535922004832943 / 35184372088832,
     55, 4876248412425839 / 70368744177664, 1535922004832943 / 17592186044416,
     110, 4876248412425839 / 35184372088832, 1535922004832943 / 8796093022208,
     220, 4876248412425839 / 17592186044416, 1535922004832943 / 4398046511104,
     440, 4876248412425839 / 8796093022208, 1535922004832943 / 2199023255552,
     880, 4876248412425839 / 4398046511104, 1535922004832943 / 1099511627776,
     1760]"
  by (simp add: sweep_frequencies_def eval_nat_numeral thirds_steps)

lemma thirds_exit:
  "((\<lambda>f. fmul f third_octave) ^^ 19) (55 / 2) = 4876248412425839 / 2199023255552"
  by (simp add: eval_nat_numeral thirds_steps)

lemma octave_walk_thirds_sweep:
  assumes "stream (osc s) = None" "wave_type (osc s) = ''sine_wave''" "frequency (osc s) = 55 / 2"
  shows "octave_walk_thirds_loop s =
    Some (s\<lparr>osc := (osc s)\<lparr>frequency := 4876248412425839 / 2199023255552\<rparr>,
      trace := trace s @
        concat (map (step_events (amplitude (osc s)))
          (sweep_frequencies (\<lambda>f. fmul f third_octave) 19))\<rparr>)"
proof -
  have "octave_walk_thirds_loop s = Some (after_steps (\<lambda>f. fmul f third_octave) 19 s)"
  proof (rule sweep_loop_run [where body = octave_walk_thirds_body])
    show "\<forall>k<19. ((\<lambda>f. fmul f third_octave) ^^ k) (frequency (osc s)) \<le> 1760"
      using sweep_frequencies_all [of 19 "\<lambda>x. x \<le> 1760" "\<lambda>f. fmul f third_octave"]
      by (simp add: assms(3) thirds_frequencies)
    show "\<not> ((\<lambda>f. fmul f third_octave) ^^ 19) (frequency (osc s)) \<le> 1760"
      unfolding assms(3) thirds_exit by simp
  qed (simp_all add: assms octave_walk_thirds_body_idle octave_walk_thirds_loop.simps [symmetric])
  then show ?thesis
    by (simp only: after_steps_sweep [OF assms(3)] thirds_exit)
qed

text \<open>The application after a sweep, in full.\<close>

lemma octave_walk_result:
  "octave_walk s =
    Some ((if stream (osc s) \<noteq> None then osc_ready_menu s else s)
      \<lparr>osc := (osc s)\<lparr>stream := None\<rparr>,
        trace := trace s @ stop_first s @
          concat (map (step_events (amplitude (osc s))) [55 / 2, 55, 110, 220, 440, 880, 1760])\<rparr>)"
proof (cases "stream (osc s)")
  case None
  then show ?thesis
    by (simp add: octave_walk_def Let_def octave_walk_sweep stop_first_def)
next
  case (Some h)
  then show ?thesis
    by (simp add: octave_walk_def Let_def octave_walk_sweep stop_first_def stop_osc_def
        osc_stop_def osc_ready_menu_def)
qed

lemma octave_walk_thirds_result:
  "octave_walk_thirds s =
    Some ((if stream (osc s) \<noteq> None then osc_ready_menu s else s)
      \<lparr>osc := (osc s)\<lparr>stream := None\<rparr>,
        trace := trace s @ stop_first s @
          concat (map (step_events (amplitude (osc s)))
            (sweep_frequencies (\<lambda>f. fmul f third_octave) 19))\<rparr>)"
proof (cases "stream (osc s)")
  case None
  then show ?thesis
    by (simp add: octave_walk_thirds_def Let_def octave_walk_thirds_sweep stop_first_def)
next
  case (Some h)
  then show ?thesis
    by (simp add: octave_walk_thirds_def Let_def octave_walk_thirds_sweep stop_first_def
        stop_osc_def osc_stop_def osc_ready_menu_def)
qed

text \<open>The float \<open>2**(1/3)\<close> and the cube root of two.\<close>

lemma third_octave_near: "\<bar>third_octave - 2 powr (1 / 3)\<bar> < 1 / 2 ^ 53"
proof -
  define c :: real where "c = 2 powr (1 / 3)"
  define m :: real where "m = 5674179970822795 / 4503599627370496"
  define u :: real where "u = 1 / 9007199254740992"
  have c0: "0 < c" by (simp add: c_def)
  have cube: "c ^ 3 = 2"
    unfolding c_def by (simp add: powr_powr flip: powr_numeral)
  have "c < m + u"
  proof (rule power_less_imp_less_base)
    show "c ^ 3 < (m + u) ^ 3" unfolding cube by (simp add: m_def u_def power3_eq_cube)
    show "0 \<le> m + u" by (simp add: m_def u_def)
  qed
  moreover have "m - u < c"
  proof (rule power_less_imp_less_base)
    show "(m - u) ^ 3 < c ^ 3" unfolding cube by (simp add: m_def u_def power3_eq_cube)
    show "0 \<le> c" using c0 by simp
  qed
  ultimately have "\<bar>m - c\<bar> < u" by linarith
  then show ?thesis by (simp add: third_octave_value c_def m_def u_def)
qed

lemma third_octave_ratio:
  assumes "0 < f"
  shows "\<bar>fmul f third_octave / f - 2 powr (1 / 3)\<bar> < 1 / 2 ^ 51"
proof -
  define m where "m = third_octave"
  have m: "0 < m" "m < 2" by (simp_all add: m_def third_octave_value)
  have "\<bar>fl (f * m) - f * m\<bar> \<le> \<bar>f * m\<bar> / 2 ^ 53" by (rule fl_error)
  then have "\<bar>fl (f * m) - f * m\<bar> / f \<le> (\<bar>f * m\<bar> / 2 ^ 53) / f"
    by (rule divide_right_mono) (use assms in simp)
  moreover have "\<bar>f * m\<bar> = f * m" using assms m(1) by simp
  moreover have "\<bar>fl (f * m) - f * m\<bar> / f = \<bar>fl (f * m) / f - m\<bar>"
  proof -
    have "fl (f * m) / f - m = (fl (f * m) - f * m) / f" using assms by (simp add: field_simps)
    then show ?thesis using assms by (simp add: abs_divide)
  qed
  moreover have "(f * m / 2 ^ 53) / f = m / 2 ^ 53" using assms by simp
  ultimately have "\<bar>fl (f * m) / f - m\<bar> \<le> m / 2 ^ 53" by simp
  also have "\<dots> < 2 / 2 ^ 53" using m(2) by (simp add: divide_strict_right_mono)
  finally have a: "\<bar>fmul f third_octave / f - third_octave\<bar> < 2 / 2 ^ 53"
    by (simp add: fmul_def m_def)
  have "\<bar>fmul f third_octave / f - 2 powr (1 / 3)\<bar>
      \<le> \<bar>fmul f third_octave / f - third_octave\<bar> + \<bar>third_octave - 2 powr (1 / 3)\<bar>"
    by linarith
  also have "\<dots> < 2 / 2 ^ 53 + 1 / 2 ^ 53" using a third_octave_near by linarith
  also have "\<dots> < 1 / 2 ^ 51" by simp
  finally show ?thesis .
qed

lemma sweep_frequencies_nth:
  "k < n \<Longrightarrow> sweep_frequencies nxt n ! k = (nxt ^^ k) (55 / 2)"
  by (simp add: sweep_frequencies_def)

lemma sweep_frequencies_pos:
  fixes nxt :: "real \<Rightarrow> real"
  assumes "\<And>f. 0 < f \<Longrightarrow> 0 < nxt f"
  shows "0 < (nxt ^^ k) (55 / 2)"
  by (induction k) (simp_all add: assms)

lemma fmul_third_pos: "0 < f \<Longrightarrow> 0 < fmul f third_octave"
proof -
  assume f: "0 < f"
  have m: "0 < third_octave" by (simp add: third_octave_value)
  have "\<bar>fl (f * third_octave) - f * third_octave\<bar> \<le> \<bar>f * third_octave\<bar> / 2 ^ 53" by (rule fl_error)
  moreover have "\<bar>f * third_octave\<bar> / 2 ^ 53 < f * third_octave"
    using f m by (simp add: field_simps)
  ultimately show ?thesis unfolding fmul_def by linarith
qed

subsection \<open>The octave walk\<close>

text \<open>
  Claim C1. From every state of the application, \<open>octave_walk\<close> returns. If the oscillator
  is streaming it is stopped first; then exactly seven steps follow, at 27.5, 55, 110, 220,
  440, 880 and 1760 Hz in this order, each one printing the frequency, playing a sine tone
  of the current amplitude, sleeping one second and stopping. Afterwards the wave type and
  the frequency are the ones from before the sweep, and the amplitude has not changed.
\<close>

theorem octave_walk_steps:
  "\<exists>s'. octave_walk s = Some s' \<and>
     trace s' = trace s @ (if stream (osc s) = None then [] else [Stop]) @
       concat (map (step_events (amplitude (osc s))) [55 / 2, 55, 110, 220, 440, 880, 1760]) \<and>
     wave_type (osc s') = wave_type (osc s) \<and>
     frequency (osc s') = frequency (osc s) \<and>
     amplitude (osc s') = amplitude (osc s)"
  by (simp add: octave_walk_result stop_first_def osc_ready_menu_def)

text \<open>The sweep of an application that was started and is playing its initial 440 Hz tone.\<close>

theorem octave_walk_steps_witness:
  "\<exists>s'. octave_walk (start_osc initial_app) = Some s' \<and>
     trace s' = [Play ''sine_wave'' 440 (1 / 2), Stop,
       Print (55 / 2), Play ''sine_wave'' (55 / 2) (1 / 2), Sleep 1, Stop,
       Print 55, Play ''sine_wave'' 55 (1 / 2), Sleep 1, Stop,
       Print 110, Play ''sine_wave'' 110 (1 / 2), Sleep 1, Stop,
       Print 220, Play ''sine_wave'' 220 (1 / 2), Sleep 1, Stop,
       Print 440, Play ''sine_wave'' 440 (1 / 2), Sleep 1, Stop,
       Print 880, Play ''sine_wave'' 880 (1 / 2), Sleep 1, Stop,
       Print 1760, Play ''sine_wave'' 1760 (1 / 2), Sleep 1, Stop] \<and>
     wave_type (osc s') = ''sine_wave'' \<and> frequency (osc s') = 440 \<and> amplitude (osc s') = 1 / 2"
  using octave_walk_steps [of "start_osc initial_app"]
  by (simp add: initial_app_def start_osc_def osc_busy_menu_def osc_play_def step_events_def)

subsection \<open>The third-octave walk\<close>

text \<open>
  Claim C3. From every state of the application, \<open>octave_walk_thirds\<close> returns after
  exactly 19 play/stop steps. The first frequency is 27.5 Hz, each further one is the float
  product of its predecessor and \<open>2**(1/3)\<close>, all of them are at most 1760 Hz, the last one
  is 1760 Hz (the product that would follow exceeds 1760 Hz and ends the loop), and the
  ratio of consecutive frequencies is the cube root of two up to the rounding of the float
  product (less than \<open>2 ^ - 51\<close>).
\<close>

theorem octave_walk_thirds_steps:
  "\<exists>s'. octave_walk_thirds s = Some s' \<and>
     trace s' = trace s @ (if stream (osc s) = None then [] else [Stop]) @
       concat (map (step_events (amplitude (osc s)))
         (sweep_frequencies (\<lambda>f. fmul f third_octave) 19)) \<and>
     length (sweep_frequencies (\<lambda>f. fmul f third_octave) 19) = 19 \<and>
     hd (sweep_frequencies (\<lambda>f. fmul f third_octave) 19) = 55 / 2 \<and>
     last (sweep_frequencies (\<lambda>f. fmul f third_octave) 19) = 1760 \<and>
     (\<forall>f\<in>set (sweep_frequencies (\<lambda>f. fmul f third_octave) 19). f \<le> 1760) \<and>
     \<not> fmul 1760 third_octave \<le> 1760 \<and>
     (\<forall>k<18. sweep_frequencies (\<lambda>f. fmul f third_octave) 19 ! Suc k =
              fmul (sweep_frequencies (\<lambda>f. fmul f third_octave) 19 ! k) third_octave \<and>
            \<bar>sweep_frequencies (\<lambda>f. fmul f third_octave) 19 ! Suc k /
              sweep_frequencies (\<lambda>f. fmul f third_octave) 19 ! k - 2 powr (1 / 3)\<bar> < 1 / 2 ^ 51)"
proof -
  let ?fs = "sweep_frequencies (\<lambda>f. fmul f third_octave) 19"
  have exit: "\<not> fmul 1760 third_octave \<le> 1760" by (simp add: thirds_steps)
  have len: "length ?fs = 19" by (simp add: sweep_frequencies_def)
  have ends: "hd ?fs = 55 / 2" "last ?fs = 1760" by (simp_all add: thirds_frequencies)
  have below: "\<forall>f\<in>set ?fs. f \<le> 1760" by (simp add: thirds_frequencies)
  have ratio: "?fs ! Suc k = fmul (?fs ! k) third_octave \<and>
      \<bar>?fs ! Suc k / ?fs ! k - 2 powr (1 / 3)\<bar> < 1 / 2 ^ 51" if "k < 18" for k
  proof -
    have pos: "0 < ?fs ! k"
      using that by (simp add: sweep_frequencies_nth sweep_frequencies_pos fmul_third_pos)
    have nxt: "?fs ! Suc k = fmul (?fs ! k) third_octave"
      using that by (simp add: sweep_frequencies_nth)
    show ?thesis using third_octave_ratio [OF pos] nxt by simp
  qed
  have "\<exists>s'. octave_walk_thirds s = Some s' \<and>
     trace s' = trace s @ (if stream (osc s) = None then [] else [Stop]) @
       concat (map (step_events (amplitude (osc s))) ?fs)"
    by (simp add: octave_walk_thirds_result stop_first_def osc_ready_menu_def)
  with exit len ends below ratio show ?thesis by blast
qed

text \<open>
  The sweep of the initial application: it returns, its second frequency is the float
  product \<open>27.5 * 2**(1/3)\<close>, which prints as 34.64782887210901, and no frequency exceeds
  1760 Hz.
\<close>

theorem octave_walk_thirds_steps_witness:
  "(\<exists>s'. octave_walk_thirds initial_app = Some s') \<and> (0::nat) < 18 \<and>
   sweep_frequencies (\<lambda>f. fmul f third_octave) 19 ! Suc 0 = 4876248412425839 / 140737488355328 \<and>
   \<bar>sweep_frequencies (\<lambda>f. fmul f third_octave) 19 ! Suc 0 /
     sweep_frequencies (\<lambda>f. fmul f third_octave) 19 ! 0 - 2 powr (1 / 3)\<bar> < 1 / 2 ^ 51 \<and>
   (1760::real) \<in> set (sweep_frequencies (\<lambda>f. fmul f third_octave) 19) \<and> (1760::real) \<le> 1760"
proof -
  let ?fs = "sweep_frequencies (\<lambda>f. fmul f third_octave) 19"
  from octave_walk_thirds_steps [of initial_app]
  have ret: "\<exists>s'. octave_walk_thirds initial_app = Some s'"
    and ratio: "\<forall>k<18. ?fs ! Suc k = fmul (?fs ! k) third_octave \<and>
        \<bar>?fs ! Suc k / ?fs ! k - 2 powr (1 / 3)\<bar> < 1 / 2 ^ 51"
    and below: "\<forall>f\<in>set ?fs. f \<le> 1760"
    by blast+
  have first: "?fs ! 0 = 55 / 2" by (simp add: sweep_frequencies_nth)
  have step: "?fs ! Suc 0 = fmul (?fs ! 0) third_octave \<and>
      \<bar>?fs ! Suc 0 / ?fs ! 0 - 2 powr (1 / 3)\<bar> < 1 / 2 ^ 51"
    by (rule ratio [rule_format]) simp
  then have "?fs ! Suc 0 = fmul (?fs ! 0) third_octave" by (rule conjunct1)
  then have "?fs ! Suc 0 = 4876248412425839 / 140737488355328"
    by (simp only: first thirds_steps)
  moreover have "\<bar>?fs ! Suc 0 / ?fs ! 0 - 2 powr (1 / 3)\<bar> < 1 / 2 ^ 51"
    using step by (rule conjunct2)
  moreover have "(1760::real) \<in> set ?fs" by (simp add: thirds_frequencies)
  ultimately show ?thesis using ret below by simp
qed

subsection \<open>The oscillator after a sweep\<close>

text \<open>
  Claim C9. After \<open>octave_walk\<close> or \<open>octave_walk_thirds\<close> has returned the oscillator is
  not streaming: its stream handle is released, also when it was streaming at the moment
  the sweep was invoked. The wave type and the frequency are restored to their values from
  before the sweep; the streaming status is not.
\<close>

theorem sweeps_leave_idle:
  "\<exists>s1 s2. octave_walk s = Some s1 \<and> octave_walk_thirds s = Some s2 \<and>
     stream (osc s1) = None \<and> stream (osc s2) = None \<and>
     wave_type (osc s1) = wave_type (osc s) \<and> frequency (osc s1) = frequency (osc s) \<and>
     wave_type (osc s2) = wave_type (osc s) \<and> frequency (osc s2) = frequency (osc s)"
  by (simp add: octave_walk_result octave_walk_thirds_result)

text \<open>A streaming oscillator is idle after either sweep.\<close>

theorem sweeps_leave_idle_witness:
  "stream (osc (start_osc initial_app)) = Some (Stream_handle 44100 ''sine_wave'') \<and>
   (\<exists>s1 s2. octave_walk (start_osc initial_app) = Some s1 \<and>
      octave_walk_thirds (start_osc initial_app) = Some s2 \<and>
      stream (osc s1) = None \<and> stream (osc s2) = None)"
  using sweeps_leave_idle [of "start_osc initial_app"]
  by (auto simp add: initial_app_def start_osc_def osc_busy_menu_def osc_play_def)

section \<open>The parameter mapping\<close>

text \<open>
  Unfolding these equations evaluates the formatting of a number.
\<close>

lemmas string_eval = str_int_def float_repr_def show_nat.simps digit_char_def format_value_def
  round_ndigits_def

subsection \<open>The frequency slider\<close>

lemma py_round_close:
  assumes "\<bar>x - y\<bar> < 1"
  shows "\<bar>py_round x - py_round y\<bar> \<le> 1"
proof -
  have "\<bar>of_int (py_round x) - x\<bar> \<le> 1 / 2" "\<bar>of_int (py_round y) - y\<bar> \<le> 1 / 2"
    by (rule py_round_error)+
  then have "\<bar>real_of_int (py_round x) - real_of_int (py_round y)\<bar> < 2"
    using assms by linarith
  then have "\<bar>real_of_int (py_round x - py_round y)\<bar> < real_of_int 2" by simp
  then have "\<bar>py_round x - py_round y\<bar> < 2" by linarith
  then show ?thesis by simp
qed

lemma math_pow_2: "math_pow 2 y = (if 1024 \<le> y then Inl OverflowError else Inr (2 powr y))"
proof -
  have "((2::real) powr 1024 \<le> 2 powr y) = (1024 \<le> y)" by (rule powr_le_cancel_iff) simp
  then have "((2::real) ^ 1024 \<le> 2 powr y) = (1024 \<le> y)" by simp
  then show ?thesis by (simp add: math_pow_def Let_def)
qed

lemma slider_to_freq_eq:
  "slider_to_freq value =
     (if 10240000 \<le> value then Inl OverflowError else Inr (py_round (2 powr (value / 10000))))"
  by (simp add: slider_to_freq_def math_pow_2)

lemma freq_to_slider_eq:
  "freq_to_slider freq = (if freq \<le> 0 then Inl ValueError else Inr (log 2 freq * 10000))"
  by (simp add: freq_to_slider_def math_log2_def)

text \<open>
  Claim C2. For every real \<open>f\<close> in the interval [20, 20000], the slider position
  \<open>freq_to_slider(f) = log2(f) * 1e4\<close> is mapped back by
  \<open>slider_to_freq(value) = round(2^(value * 1e-4))\<close> to \<open>round(f)\<close> within 1 Hz; neither
  function raises there.
\<close>

theorem slider_round_trip:
  assumes "20 \<le> f" "f \<le> 20000"
  shows "\<exists>v n. freq_to_slider f = Inr v \<and> slider_to_freq v = Inr n \<and> \<bar>n - py_round f\<bar> \<le> 1"
proof -
  have f: "0 < f" using assms(1) by simp
  have v: "freq_to_slider f = Inr (log 2 f * 10000)" using f by (simp add: freq_to_slider_eq)
  have "log 2 f < 1024"
  proof -
    have lt: "f < 2 powr 1024" using assms(2) by simp
    have "log 2 f < 1024 \<longleftrightarrow> f < 2 powr 1024" by (rule log_less_iff) (use f in simp_all)
    then show ?thesis using lt by blast
  qed
  then have "slider_to_freq (log 2 f * 10000) = Inr (py_round f)"
    using f by (simp add: slider_to_freq_eq)
  with v show ?thesis by simp
qed

text \<open>
  The round trip of the initial frequency, 440 Hz.
\<close>

theorem slider_round_trip_witness:
  "(20::real) \<le> 440 \<and> (440::real) \<le> 20000 \<and>
   (\<exists>v n. freq_to_slider 440 = Inr v \<and> slider_to_freq v = Inr n \<and> \<bar>n - 440\<bar> \<le> 1)"
proof -
  have "py_round 440 = 440" by (simp add: py_round_def)
  then show ?thesis using slider_round_trip [of 440] by simp
qed

text \<open>
  The tolerance of one hertz leaves room for the rounding of the float operations, which
  the real functions above leave out: whenever the slider value is computed with an error
  of at most 0.01 and the power of two with an error of at most 0.01 (the errors of
  binary64 arithmetic are smaller by many orders of magnitude), the rounded result is
  within 1 Hz of \<open>round(f)\<close>.
\<close>

lemma two_powr_near_one:
  fixes d :: real
  assumes "\<bar>d\<bar> \<le> 1 / 2"
  shows "\<bar>2 powr d - 1\<bar> \<le> 2 * \<bar>d\<bar>"
proof (cases "0 \<le> d")
  case True
  then have "2 powr d \<le> 1 + d + d\<^sup>2" using assms by (intro two_powr_small) simp_all
  moreover have "d\<^sup>2 \<le> d" using True assms by (simp add: power2_eq_square mult_left_le)
  moreover have "1 \<le> 2 powr d" using True by (simp add: ge_one_powr_ge_zero)
  ultimately show ?thesis using True by simp
next
  case False
  define e where "e = - d"
  have e: "0 < e" "e \<le> 1 / 2" using False assms by (simp_all add: e_def)
  have "2 powr e \<le> 1 + e + e\<^sup>2" using e by (intro two_powr_small) simp_all
  moreover have "e\<^sup>2 \<le> e" using e by (simp add: power2_eq_square mult_left_le)
  ultimately have up: "2 powr e \<le> 1 + 2 * e" by simp
  have lo: "1 \<le> 2 powr e" using e by (simp add: ge_one_powr_ge_zero)
  have inv: "2 powr d = 1 / 2 powr e" by (simp add: e_def powr_minus_divide)
  have "1 / (1 + 2 * e) \<le> 1 / 2 powr e" using up lo by (intro divide_left_mono) simp_all
  moreover have "1 - 2 * e \<le> 1 / (1 + 2 * e)"
    using e by (simp add: field_simps power2_eq_square)
  moreover have "1 / 2 powr e \<le> 1" using lo by simp
  ultimately show ?thesis using e unfolding inv by (simp add: e_def)
qed

lemma round_trip_tolerance:
  assumes "20 \<le> f" "f \<le> 20000"
    and "\<bar>v - log 2 f * 10000\<bar> \<le> 1 / 100"
    and "\<bar>p - 2 powr (v * (1 / 10000))\<bar> \<le> 1 / 100"
  shows "\<bar>py_round p - py_round f\<bar> \<le> 1"
proof -
  define d where "d = v * (1 / 10000) - log 2 f"
  have f: "0 < f" using assms(1) by simp
  have d: "\<bar>d\<bar> \<le> 1 / 1000000" using assms(3) by (simp add: d_def field_simps abs_le_iff)
  have "2 powr (v * (1 / 10000)) = 2 powr (log 2 f + d)" by (simp add: d_def)
  also have "\<dots> = f * 2 powr d" using f by (simp add: powr_add)
  finally have q: "2 powr (v * (1 / 10000)) - f = f * (2 powr d - 1)" by (simp add: algebra_simps)
  have "\<bar>2 powr d - 1\<bar> \<le> 2 * \<bar>d\<bar>" using d by (intro two_powr_near_one) simp
  then have "\<bar>2 powr d - 1\<bar> \<le> 1 / 500000" using d by linarith
  then have "f * \<bar>2 powr d - 1\<bar> \<le> 20000 * (1 / 500000)"
    using f assms(2) by (intro mult_mono) simp_all
  then have "\<bar>2 powr (v * (1 / 10000)) - f\<bar> \<le> 1 / 25"
    unfolding q using f by (simp add: abs_mult)
  then have "\<bar>p - f\<bar> < 1" using assms(4) by linarith
  then show ?thesis by (rule py_round_close)
qed

subsection \<open>The frequency title\<close>

lemma fl_milli: "fl (1 / 1000) = 1152921504606847 / 1152921504606846976"
  by (simp add: float_eval)

lemma py_round_of_int [simp]: "py_round (of_int k) = k"
  by (simp add: py_round_def)

lemma kilohertz_rounding:
  assumes "10000 \<le> freq" "freq < 10 ^ 15"
  defines "x \<equiv> fmul (fl (of_int freq)) (fl (1 / 1000))"
  shows "\<bar>fl (of_int freq)\<bar> < 2 ^ 1024"
    and "\<bar>real_of_int (py_round (x * 10)) / 10 - real_of_int freq / 1000\<bar> \<le> 1 / 20"
proof -
  define a :: real where "a = of_int freq"
  define x1 where "x1 = fl a"
  define c :: real where "c = 1152921504606847 / 1152921504606846976"
  define k where "k = py_round (x * 10)"
  define e1 where "e1 = x1 - a"
  define e2 where "e2 = x - x1 * c"
  have a: "10000 \<le> a" "a < 1000000000000000"
    using assms(1,2) by (simp_all add: a_def)
  have c: "0 \<le> c" "c \<le> 1001 / 1000000" "c - 1 / 1000 \<le> 3 / 100000000000000000000"
    "0 \<le> c - 1 / 1000"
    by (simp_all add: c_def)
  have x: "x = fl (x1 * c)" by (simp add: x_def fmul_def fl_milli x1_def a_def c_def)
  have "\<bar>x1 - a\<bar> \<le> \<bar>a\<bar> / 2 ^ 53" unfolding x1_def by (rule fl_error)
  then have h1: "\<bar>e1\<bar> \<le> a / 9007199254740992" using a(1) by (simp add: e1_def)
  have x1: "0 \<le> x1" "x1 \<le> 2 * a" using h1 a(1) unfolding e1_def by linarith+
  show "\<bar>fl (of_int freq)\<bar> < 2 ^ 1024"
  proof -
    have "\<bar>x1\<bar> < 2000000000000000" using x1 a(2) by linarith
    also have "\<dots> < (2::real) ^ 1024" by simp
    finally show ?thesis by (simp add: x1_def a_def)
  qed
  have p: "x1 * c \<le> (2 * a) * (1001 / 1000000)"
    using x1 c(1,2) by (intro mult_mono) simp_all
  have "\<bar>x - x1 * c\<bar> \<le> \<bar>x1 * c\<bar> / 2 ^ 53" unfolding x by (rule fl_error)
  moreover have "\<bar>x1 * c\<bar> = x1 * c" using x1(1) c(1) by simp
  ultimately have "\<bar>e2\<bar> \<le> x1 * c / 9007199254740992" by (simp add: e2_def)
  then have h2: "\<bar>e2\<bar> \<le> a / 4000000000000000000" using p by linarith
  have "\<bar>c * e1\<bar> = c * \<bar>e1\<bar>" using c(1) by (simp add: abs_mult)
  also have "\<dots> \<le> (1001 / 1000000) * (a / 9007199254740992)"
    using c(1,2) h1 by (intro mult_mono) simp_all
  finally have h3: "\<bar>c * e1\<bar> \<le> a / 8000000000000000000" using a(1) by linarith
  have "a * (c - 1 / 1000) \<le> a * (3 / 100000000000000000000)"
    using c(3) a(1) by (intro mult_left_mono) simp_all
  moreover have "0 \<le> a * (c - 1 / 1000)" using c(4) a(1) by simp
  ultimately have h4: "\<bar>a * (c - 1 / 1000)\<bar> \<le> a / 30000000000000000000" by linarith
  have split: "x * 10 - a / 100 = 10 * e2 + 10 * (c * e1) + 10 * (a * (c - 1 / 1000))"
    by (simp add: e1_def e2_def algebra_simps)
  have near: "\<bar>x * 10 - a / 100\<bar> < 1 / 100"
    unfolding split using h2 h3 h4 a by linarith
  have "\<bar>of_int k - x * 10\<bar> \<le> 1 / 2" unfolding k_def by (rule py_round_error)
  then have "\<bar>of_int k - a / 100\<bar> < 51 / 100" using near by linarith
  then have "\<bar>100 * real_of_int k - real_of_int freq\<bar> < 51"
    unfolding a_def by linarith
  then have "\<bar>real_of_int (100 * k - freq)\<bar> < real_of_int 51" by simp
  then have "\<bar>100 * k - freq\<bar> < 51" by linarith
  then have "\<bar>100 * k - freq\<bar> \<le> 50" by simp
  then have "\<bar>real_of_int (100 * k - freq)\<bar> \<le> real_of_int 50" by linarith
  then have "\<bar>100 * real_of_int k - real_of_int freq\<bar> \<le> 50" by simp
  then have "\<bar>real_of_int k / 10 - real_of_int freq / 1000\<bar> \<le> 1 / 20" by linarith
  then show "\<bar>real_of_int (py_round (x * 10)) / 10 - real_of_int freq / 1000\<bar> \<le> 1 / 20"
    by (simp add: k_def)
qed

lemma fl_two_power_1024: "fl (2 ^ 1024) = 2 ^ 1024"
proof -
  have p: "(2::real) powi 1024 = 2 ^ 1024" by (simp add: power_int_def)
  have "fl (2 powi 1024) = of_int (2 ^ 52) * 2 powi (1024 - 52)"
  proof (rule fl_eqI)
    show "2 powi 1024 \<le> \<bar>(2::real) powi 1024\<bar>" by simp
    show "\<bar>(2::real) powi 1024\<bar> < 2 powi (1024 + 1)" by (simp add: power_int_def)
    have "(2::real) powi 1024 * 2 powi (52 - 1024) = 2 powi 52"
      by (simp flip: power_int_add)
    then show "\<bar>(2::real) powi 1024 * 2 powi (52 - 1024) - of_int (2 ^ 52)\<bar> < 1 / 2"
      by (simp add: power_int_def)
  qed
  also have "of_int (2 ^ 52) * 2 powi (1024 - 52) = (2::real) powi 52 * 2 powi (1024 - 52)"
    by (simp add: power_int_def)
  also have "\<dots> = 2 powi 1024" by (simp flip: power_int_add)
  finally show ?thesis by (simp only: p)
qed

text \<open>
  Claim C6, as amended. For every integer frequency below \<open>10 ^ 15\<close> Hz:
  \<open>freq_title_format\<close> returns \<open>"Frequency: {freq} Hz"\<close> with the integer when the
  frequency is below 10000, and \<open>"Frequency: {freq/1000} kHz"\<close> with the kHz value rounded
  to one decimal from 10000 on, that is with a number of tenths \<open>k\<close> such that \<open>k / 10\<close> is
  at most 0.05 away from \<open>freq / 1000\<close>. In particular 440 gives \<open>"Frequency: 440 Hz"\<close>
  and 15000 gives \<open>"Frequency: 15.0 kHz"\<close>.
\<close>

theorem freq_title_format_units:
  "(freq < 10000 \<longrightarrow> freq_title_format freq = Inr (''Frequency: '' @ str_int freq @ '' Hz'')) \<and>
   (10000 \<le> freq \<and> freq < 10 ^ 15 \<longrightarrow>
      (\<exists>k. freq_title_format freq = Inr (''Frequency: '' @ float_repr (of_int k / 10) @ '' kHz'') \<and>
           \<bar>real_of_int k / 10 - real_of_int freq / 1000\<bar> \<le> 1 / 20)) \<and>
   freq_title_format 440 = Inr ''Frequency: 440 Hz'' \<and>
   freq_title_format 15000 = Inr ''Frequency: 15.0 kHz''"
proof -
  have hz: "freq_title_format freq = Inr (''Frequency: '' @ str_int freq @ '' Hz'')"
    if "freq < 10000"
    using that by (simp add: freq_title_format_def)
  have khz: "\<exists>k. freq_title_format freq = Inr (''Frequency: '' @ float_repr (of_int k / 10) @ '' kHz'') \<and>
           \<bar>real_of_int k / 10 - real_of_int freq / 1000\<bar> \<le> 1 / 20"
    if "10000 \<le> freq" "freq < 10 ^ 15"
  proof -
    let ?x = "fmul (fl (of_int freq)) (fl (1 / 1000))"
    have "freq_title_format freq =
        Inr (''Frequency: '' @ float_repr (of_int (py_round (?x * 10)) / 10) @ '' kHz'')"
      using that kilohertz_rounding(1) [OF that]
      by (simp add: freq_title_format_def int_to_float_def Let_def round_ndigits_def)
    then show ?thesis using kilohertz_rounding(2) [OF that] by blast
  qed
  have "freq_title_format 440 = Inr ''Frequency: 440 Hz''"
    by (simp add: freq_title_format_def string_eval)
  moreover have "freq_title_format 15000 = Inr ''Frequency: 15.0 kHz''"
    by (simp add: freq_title_format_def int_to_float_def) (simp add: float_eval string_eval)
  ultimately show ?thesis using hz khz by blast
qed

text \<open>
  The last frequency shown in Hz, and the upper end of the slider.
\<close>

theorem freq_title_format_units_witness:
  "(9999::int) < 10000 \<and> freq_title_format 9999 = Inr ''Frequency: 9999 Hz'' \<and>
   (10000::int) \<le> 20000 \<and> (20000::int) < 10 ^ 15 \<and>
   (\<exists>k. freq_title_format 20000 = Inr (''Frequency: '' @ float_repr (of_int k / 10) @ '' kHz'') \<and>
        \<bar>real_of_int k / 10 - real_of_int 20000 / 1000\<bar> \<le> 1 / 20)"
proof -
  have "str_int 9999 = ''9999''" by (simp add: str_int_def show_nat.simps digit_char_def)
  then show ?thesis
    using freq_title_format_units [of 9999] freq_title_format_units [of 20000] by simp
qed

text \<open>
  The claim as stated, for every frequency, fails where binary64 arithmetic runs out: the
  float product for 20000000000000747 Hz is 20000000000000.75, which is printed as
  20000000000000.8 kHz although the frequency is nearer to 20000000000000.7 kHz, and the
  integer \<open>2 ^ 1024\<close> cannot be converted to a float, so that the product raises
  \<open>OverflowError\<close>.
\<close>

theorem freq_title_format_large:
  "freq_title_format 20000000000000747 = Inr ''Frequency: 20000000000000.8 kHz'' \<and>
   freq_title_format (2 ^ 1024) = Inl OverflowError"
proof -
  have "freq_title_format 20000000000000747 = Inr ''Frequency: 20000000000000.8 kHz''"
    by (simp add: freq_title_format_def int_to_float_def) (simp add: float_eval string_eval)
  moreover have "fl (of_int (2 ^ 1024)) = 2 ^ 1024" using fl_two_power_1024 by simp
  then have "freq_title_format (2 ^ 1024) = Inl OverflowError"
    by (simp add: freq_title_format_def int_to_float_def)
  ultimately show ?thesis by simp
qed

subsection \<open>The volume title\<close>

lemma round_ndigits_zero:
  assumes "\<bar>x\<bar> < 1 / 20"
  shows "round_ndigits x (Suc 0) = 0"
proof -
  have "\<bar>x * 10 - of_int 0\<bar> < 1 / 2" using assms by simp
  then have "py_round (x * 10) = 0" by (rule py_round_unique)
  then show ?thesis by (simp add: round_ndigits_def)
qed



text \<open>
  Claim C5. For every amplitude \<open>amp \<le> 0\<close> the domain error of the logarithm is not
  propagated: \<open>amp_title_format\<close> returns the title with the sentinel,
  \<open>"Volume: -\<infinity> dBFS"\<close>.
\<close>

theorem amp_title_format_sentinel:
  "amp \<le> 0 \<Longrightarrow> amp_title_format amp = Inr (''Volume: '' @ minus_infinity @ '' dBFS'')"
  by (simp add: amp_title_format_def math_log10_def format_value_def)

text \<open>
  Silence, and a negative amplitude.
\<close>

theorem amp_title_format_sentinel_witness:
  "(0::real) \<le> 0 \<and> amp_title_format 0 = Inr (''Volume: '' @ minus_infinity @ '' dBFS'') \<and>
   amp_title_format (- 1 / 2) = Inr (''Volume: '' @ minus_infinity @ '' dBFS'')"
  using amp_title_format_sentinel [of 0] amp_title_format_sentinel [of "- 1 / 2"] by simp

text \<open>
  Claim C10. \<open>amp_title_format\<close> returns \<open>"Volume: -0.0 dBFS"\<close> for every amplitude
  \<open>amp > 0\<close> whose decibel value rounds to zero at one decimal, that is for every amplitude
  with \<open>\<bar>20 * log10(amp)\<bar> < 0.05\<close>, amplitudes above 1.0 included: 1.001 is one of them.
\<close>

theorem amp_title_format_zero:
  "(0 < amp \<and> \<bar>20 * log 10 amp\<bar> < 1 / 20 \<longrightarrow> amp_title_format amp = Inr ''Volume: -0.0 dBFS'') \<and>
   amp_title_format (1001 / 1000) = Inr ''Volume: -0.0 dBFS''"
proof -
  have gen: "amp_title_format a = Inr ''Volume: -0.0 dBFS''"
    if "0 < a" "\<bar>20 * log 10 a\<bar> < 1 / 20" for a
    using that by (simp add: amp_title_format_def math_log10_def format_value_def round_ndigits_zero)
  have "\<bar>20 * log 10 (1001 / 1000 :: real)\<bar> < 1 / 20"
  proof -
    have l: "ln (1001 / 1000 :: real) \<le> 1001 / 1000 - 1" by (rule ln_le_minus_one) simp
    have p: "0 \<le> ln (1001 / 1000 :: real)" by simp
    have t: "1 \<le> ln (10 :: real)"
    proof -
      have "exp 1 \<le> (10::real)" using exp_le by simp
      then have "ln (exp 1) \<le> ln (10::real)" by (subst ln_le_cancel_iff) simp_all
      then show ?thesis by simp
    qed
    have "log 10 (1001 / 1000 :: real) = ln (1001 / 1000) / ln 10" by (simp add: log_def)
    also have "\<dots> \<le> ln (1001 / 1000) / 1" using p t by (intro divide_left_mono) simp_all
    finally have "log 10 (1001 / 1000 :: real) \<le> 1 / 1000" using l by simp
    moreover have "0 \<le> log 10 (1001 / 1000 :: real)" by simp
    ultimately show ?thesis by simp
  qed
  then have "amp_title_format (1001 / 1000) = Inr ''Volume: -0.0 dBFS''" by (intro gen) simp_all
  with gen show ?thesis by blast
qed

text \<open>
  Full scale itself.
\<close>

theorem amp_title_format_zero_witness:
  "(0::real) < 1 \<and> \<bar>20 * log 10 (1::real)\<bar> < 1 / 20 \<and> amp_title_format 1 = Inr ''Volume: -0.0 dBFS''"
  using amp_title_format_zero [of 1] by simp

subsection \<open>Inputs outside the nominal ranges\<close>

text \<open>
  Claim C7, as amended. \<open>slider_to_freq\<close> returns for every slider value below
  10240000 and raises \<open>OverflowError\<close> from there on, where the power of two leaves the
  binary64 range. \<open>freq_to_slider\<close> returns for every frequency above zero and raises
  \<open>ValueError\<close> for every frequency that is zero or negative. \<open>amp_title_format\<close> returns
  for every amplitude, with the sentinel title for every amplitude that is zero or negative.
\<close>

theorem mapping_defined:
  "(value < 10240000 \<longrightarrow> (\<exists>n. slider_to_freq value = Inr n)) \<and>
   (10240000 \<le> value \<longrightarrow> slider_to_freq value = Inl OverflowError) \<and>
   (0 < freq \<longrightarrow> (\<exists>v. freq_to_slider freq = Inr v)) \<and>
   (freq \<le> 0 \<longrightarrow> freq_to_slider freq = Inl ValueError) \<and>
   (\<exists>t. amp_title_format amp = Inr t) \<and>
   (amp \<le> 0 \<longrightarrow> amp_title_format amp = Inr (''Volume: '' @ minus_infinity @ '' dBFS''))"
  by (simp add: slider_to_freq_eq freq_to_slider_eq amp_title_format_def math_log10_def
      format_value_def)

text \<open>
  A slider at zero and at the overflow threshold, a frequency of 1 Hz and of -1 Hz, and
  the amplitude -1.
\<close>

theorem mapping_defined_witness:
  "(\<exists>n. slider_to_freq 0 = Inr n) \<and> slider_to_freq 10240000 = Inl OverflowError \<and>
   (\<exists>v. freq_to_slider 1 = Inr v) \<and> freq_to_slider (- 1) = Inl ValueError \<and>
   amp_title_format (- 1) = Inr (''Volume: '' @ minus_infinity @ '' dBFS'')"
  using mapping_defined [of 0 1 "- 1"] mapping_defined [of 10240000 "- 1" "- 1"]
  by simp

text \<open>
  The claim as stated fails: \<open>freq_to_slider(0)\<close> raises the domain error of
  \<open>math.log2\<close>, and \<open>slider_to_freq(20000000)\<close> raises the range error of
  \<open>math.pow\<close>.
\<close>

theorem mapping_raises: "freq_to_slider 0 = Inl ValueError \<and> slider_to_freq 20000000 = Inl OverflowError"
  by (simp add: slider_to_freq_eq freq_to_slider_eq)

subsection \<open>The legacy amplitude curve\<close>










end
